theory Spec2Isabelle
  imports Main "HOL-Library.AList"
begin

text \<open>
  The reconciliation core of the customers-migration service: the Customer entity and
  the Email value object, the merge and diff rules of \<open>CustomerMergeService\<close>, and
  the three use cases that look a customer up in both systems (get by email, search by
  name, sync). Every function is a translation of the TypeScript function of the same
  name; the definitions come first, the properties follow.
\<close>

section \<open>JavaScript values used by the domain\<close>

subsection \<open>Strings\<close>

text \<open>
  A JavaScript string is a sequence of UTF-16 code units. The model covers the strings
  whose code units are below 256 and writes them as HOL strings, one \<open>char\<close> for one
  code unit. On that range \<open>String.prototype.toLowerCase\<close> maps \<open>A\<close>..\<open>Z\<close> and
  the capital letters \<open>0xC0\<close>..\<open>0xDE\<close> (without the multiplication sign
  \<open>0xD7\<close>) to the code unit 32 higher and leaves every other code unit alone;
  \<open>trim\<close> and the regular-expression class \<open>\s\<close> share one set of white space
  and line terminators: TAB, LF, VT, FF, CR, SP and NBSP.
\<close>

definition isWhiteSpace :: "char \<Rightarrow> bool" where
  "isWhiteSpace c =
     (c \<in> set [CHR 0x09, CHR 0x0A, CHR 0x0B, CHR 0x0C, CHR 0x0D, CHR 0x20, CHR 0xA0])"

definition toLowerChar :: "char \<Rightarrow> char" where
  "toLowerChar c =
     (let n = (of_char c :: nat)
      in if (65 \<le> n \<and> n \<le> 90) \<or> (192 \<le> n \<and> n \<le> 222 \<and> n \<noteq> 215)
         then char_of (n + 32) else c)"

definition toLowerCase :: "string \<Rightarrow> string" where
  "toLowerCase s = map toLowerChar s"

definition trim :: "string \<Rightarrow> string" where
  "trim s = rev (dropWhile isWhiteSpace (rev (dropWhile isWhiteSpace s)))"

text \<open>Truthiness of a value of type \<open>string | null\<close>: \<open>null\<close> and \<open>""\<close> are falsy.\<close>

definition truthy :: "string option \<Rightarrow> bool" where
  "truthy v = (case v of None \<Rightarrow> False | Some s \<Rightarrow> s \<noteq> [])"

text \<open>The nullish coalescing operator \<open>??\<close>: the right operand only for \<open>null\<close>.\<close>

definition nullish :: "'a option \<Rightarrow> 'a option \<Rightarrow> 'a option" where
  "nullish l r = (case l of None \<Rightarrow> r | Some v \<Rightarrow> Some v)"

subsection \<open>Dates\<close>

text \<open>
  A \<open>Date\<close> holds a time value: an integral number of milliseconds since the epoch, or
  \<open>NaN\<close> (an invalid date, which \<open>new Date(s)\<close> returns for a string it cannot parse).
  The relational operators compare the time values as numbers, and every comparison with
  \<open>NaN\<close> is false. \<open>toISOString\<close> throws a \<open>RangeError\<close> on an invalid date; the
  string it returns otherwise is written \<open>ISO t\<close>, \<open>t\<close> the time value it renders.
\<close>

datatype Date = TimeValue int | InvalidDate

datatype isoString = ISO int

fun date_gt :: "Date \<Rightarrow> Date \<Rightarrow> bool" where
  "date_gt (TimeValue x) (TimeValue y) = (x > y)"
| "date_gt _ _ = False"

fun date_ge :: "Date \<Rightarrow> Date \<Rightarrow> bool" where
  "date_ge (TimeValue x) (TimeValue y) = (x \<ge> y)"
| "date_ge _ _ = False"

subsection \<open>Errors\<close>

text \<open>
  Every \<open>throw\<close> of the modelled code and every rejected promise is a value:
  \<^item> \<open>MergeError\<close>: \<open>Error('Cannot merge: no customer data from either system')\<close>,
    the specification's InvariantViolation;
  \<^item> \<open>CustomerNotFoundException e\<close>: thrown by the use cases for the normalized email
    \<open>e\<close>, the specification's NotFound;
  \<^item> \<open>InvalidEmailFormat e\<close>: \<open>Error('Invalid email format: ' + e)\<close> of the Email
    value object;
  \<^item> \<open>RangeError\<close>: \<open>toISOString\<close> on an invalid date;
  \<^item> \<open>LookupRejected\<close>: a promise of a repository was rejected (the reason, an error of
    the database or HTTP layer, is not modelled).
\<close>

datatype error =
    MergeError
  | CustomerNotFoundException string
  | InvalidEmailFormat string
  | RangeError
  | LookupRejected

fun toISOString :: "Date \<Rightarrow> error + isoString" where
  "toISOString (TimeValue t) = Inr (ISO t)"
| "toISOString InvalidDate = Inl RangeError"

section \<open>The Customer entity\<close>

text \<open>
  Several interfaces of the source share field names (\<open>email\<close>, \<open>name\<close>,
  \<open>source\<close>, \<open>lastUpdated\<close>, ...), so every record field carries a prefix for its
  interface: \<open>p_\<close> the constructor parameters, \<open>c_\<close> Customer, \<open>fm_\<close>
  FieldMetadata, \<open>md_\<close> UnifiedCustomerMetadata, \<open>ids_\<close> identifiers, \<open>u_\<close>
  UnifiedCustomerOutput, \<open>fc_\<close> FieldConflict, \<open>lu_\<close> and \<open>sr_\<close> SyncResultOutput.
\<close>

datatype SourceSystem = SYSTEM_A | SYSTEM_B | BOTH

record CustomerParams =
  p_id :: string
  p_email :: string
  p_name :: string
  p_address :: string
  p_phone :: "string option"
  p_contractStartDate :: "string option"
  p_contractType :: "string option"
  p_lastUpdated :: Date
  p_source :: SourceSystem

record Customer =
  c_id :: string
  c_email :: string
  c_name :: string
  c_address :: string
  c_phone :: "string option"
  c_contractStartDate :: "string option"
  c_contractType :: "string option"
  c_lastUpdated :: Date
  c_source :: SourceSystem

text \<open>
  \<open>Customer.constructor\<close>. An optional parameter that is missing or \<open>null\<close> is
  \<open>None\<close>, and \<open>params.phone ?? null\<close> keeps every other value, the empty string too.
  No statement of the constructor throws.
\<close>

definition new_Customer :: "CustomerParams \<Rightarrow> Customer" where
  "new_Customer params =
     \<lparr> c_id = p_id params,
       c_email = trim (toLowerCase (p_email params)),
       c_name = p_name params,
       c_address = p_address params,
       c_phone = nullish (p_phone params) None,
       c_contractStartDate = nullish (p_contractStartDate params) None,
       c_contractType = nullish (p_contractType params) None,
       c_lastUpdated = p_lastUpdated params,
       c_source = p_source params \<rparr>"

section \<open>CustomerMergeService\<close>

record FieldMetadata =
  fm_source :: SourceSystem
  fm_conflict :: bool
  fm_systemAValue :: "string option"
  fm_systemBValue :: "string option"

text \<open>
  \<open>systemAValue\<close> and \<open>systemBValue\<close> are optional properties: \<open>None\<close> is a
  property that the object does not have. \<open>fields\<close> is an object used as a dictionary;
  its properties are kept in insertion order, as \<open>Object.values\<close> reads them, and
  \<open>fields[k] = v\<close> is \<open>AList.update k v\<close>.
\<close>

record UnifiedCustomerMetadata =
  md_sources :: "SourceSystem list"
  md_isPartial :: bool
  md_conflictsDetected :: bool
  md_fields :: "(string \<times> FieldMetadata) list"

record Identifiers =
  ids_systemAId :: "string option"
  ids_systemBUuid :: "string option"

record UnifiedCustomerOutput =
  u_email :: string
  u_name :: string
  u_phone :: "string option"
  u_address :: string
  u_contractStartDate :: "string option"
  u_contractType :: "string option"
  u_identifiers :: Identifiers
  u_metadata :: UnifiedCustomerMetadata

text \<open>The object literals \<open>{ source, conflict }\<close> with and without the two values.\<close>

definition plainField :: "SourceSystem \<Rightarrow> FieldMetadata" where
  "plainField s =
     \<lparr> fm_source = s, fm_conflict = False, fm_systemAValue = None, fm_systemBValue = None \<rparr>"

definition spreadField :: "SourceSystem \<Rightarrow> bool \<Rightarrow> string \<Rightarrow> string \<Rightarrow> FieldMetadata" where
  "spreadField s conflict aVal bVal =
     \<lparr> fm_source = s, fm_conflict = conflict,
       fm_systemAValue = (if conflict then Some aVal else None),
       fm_systemBValue = (if conflict then Some bVal else None) \<rparr>"

text \<open>
  \<open>mergeFromBothSystems\<close>, statement by statement. \<open>address\<close> has the type
  \<open>string\<close>, so the two tests \<open>!= null\<close> of the address conflict are true.
\<close>

definition bothFields :: "Customer \<Rightarrow> Customer \<Rightarrow> (string \<times> FieldMetadata) list" where
  "bothFields systemA systemB =
     (let fields0 = [];
          nameConflict = (c_name systemA \<noteq> c_name systemB);
          newerNameSource =
            (if date_gt (c_lastUpdated systemB) (c_lastUpdated systemA)
             then SYSTEM_B else SYSTEM_A);
          fields1 = AList.update ''name''
            (spreadField (if nameConflict then newerNameSource else BOTH) nameConflict
               (c_name systemA) (c_name systemB)) fields0;
          fields2 =
            (if truthy (c_phone systemB)
             then AList.update ''phone'' (plainField SYSTEM_B) fields1
             else if truthy (c_phone systemA)
             then AList.update ''phone'' (plainField SYSTEM_A) fields1
             else fields1);
          addressConflict = (c_address systemA \<noteq> c_address systemB);
          fields3 = AList.update ''address''
            (spreadField SYSTEM_B addressConflict (c_address systemA) (c_address systemB))
            fields2;
          fields4 =
            (if truthy (c_contractStartDate systemA)
             then AList.update ''contractStartDate'' (plainField SYSTEM_A) fields3
             else if truthy (c_contractStartDate systemB)
             then AList.update ''contractStartDate'' (plainField SYSTEM_B) fields3
             else fields3);
          fields5 =
            (if truthy (c_contractType systemA)
             then AList.update ''contractType'' (plainField SYSTEM_A) fields4
             else if truthy (c_contractType systemB)
             then AList.update ''contractType'' (plainField SYSTEM_B) fields4
             else fields4)
      in fields5)"

definition mergeFromBothSystems :: "Customer \<Rightarrow> Customer \<Rightarrow> UnifiedCustomerOutput" where
  "mergeFromBothSystems systemA systemB =
     (let fields = bothFields systemA systemB;
          conflictsDetected = list_ex fm_conflict (map snd fields);
          mergedName =
            (if date_gt (c_lastUpdated systemB) (c_lastUpdated systemA)
             then c_name systemB else c_name systemA)
      in \<lparr> u_email = c_email systemA,
           u_name = mergedName,
           u_phone = nullish (c_phone systemB) (c_phone systemA),
           u_address = c_address systemB,
           u_contractStartDate =
             nullish (c_contractStartDate systemA) (c_contractStartDate systemB),
           u_contractType = nullish (c_contractType systemA) (c_contractType systemB),
           u_identifiers =
             \<lparr> ids_systemAId = Some (c_id systemA), ids_systemBUuid = Some (c_id systemB) \<rparr>,
           u_metadata =
             \<lparr> md_sources = [SYSTEM_A, SYSTEM_B],
               md_isPartial = False,
               md_conflictsDetected = conflictsDetected,
               md_fields = fields \<rparr> \<rparr>)"

definition singleFields :: "Customer \<Rightarrow> SourceSystem \<Rightarrow> (string \<times> FieldMetadata) list" where
  "singleFields customer source =
     (let fields0 = [];
          fields1 = AList.update ''name'' (plainField source) fields0;
          fields2 = (if c_address customer \<noteq> []
                     then AList.update ''address'' (plainField source) fields1 else fields1);
          fields3 = (if truthy (c_phone customer)
                     then AList.update ''phone'' (plainField source) fields2 else fields2);
          fields4 = (if truthy (c_contractStartDate customer)
                     then AList.update ''contractStartDate'' (plainField source) fields3
                     else fields3);
          fields5 = (if truthy (c_contractType customer)
                     then AList.update ''contractType'' (plainField source) fields4
                     else fields4)
      in fields5)"

definition buildSingleSourceResult :: "Customer \<Rightarrow> SourceSystem \<Rightarrow> UnifiedCustomerOutput" where
  "buildSingleSourceResult customer source =
     \<lparr> u_email = c_email customer,
       u_name = c_name customer,
       u_phone = c_phone customer,
       u_address = c_address customer,
       u_contractStartDate = c_contractStartDate customer,
       u_contractType = c_contractType customer,
       u_identifiers =
         \<lparr> ids_systemAId = (if source = SYSTEM_A then Some (c_id customer) else None),
           ids_systemBUuid = (if source = SYSTEM_B then Some (c_id customer) else None) \<rparr>,
       u_metadata =
         \<lparr> md_sources = [source],
           md_isPartial = False,
           md_conflictsDetected = False,
           md_fields = singleFields customer source \<rparr> \<rparr>"

text \<open>\<open>merge\<close>: a Customer object is truthy, so \<open>!systemA\<close> is \<open>systemA = None\<close>.\<close>

fun merge :: "Customer option \<Rightarrow> Customer option \<Rightarrow> error + UnifiedCustomerOutput" where
  "merge None None = Inl MergeError"
| "merge (Some systemA) None = Inr (buildSingleSourceResult systemA SYSTEM_A)"
| "merge None (Some systemB) = Inr (buildSingleSourceResult systemB SYSTEM_B)"
| "merge (Some systemA) (Some systemB) = Inr (mergeFromBothSystems systemA systemB)"

text \<open>
  \<open>diff\<close>. The loop over \<open>fieldsToCompare\<close> pushes to \<open>conflicts\<close> and to
  \<open>matchedFields\<close>; the model passes both lists along. \<open>aVal == null\<close> is
  \<open>aVal = None\<close>, and \<open>===\<close> on \<open>string | null\<close> is equality.
\<close>

record FieldConflict =
  fc_field :: string
  fc_systemAValue :: "string option"
  fc_systemBValue :: "string option"
  fc_newerSource :: SourceSystem

datatype SyncStatus = in_sync | conflicts_found | single_source_only

record LastUpdated =
  lu_systemA :: "isoString option"
  lu_systemB :: "isoString option"

record SyncResultOutput =
  sr_email :: string
  sr_status :: SyncStatus
  sr_presentIn :: "SourceSystem option"
  sr_lastUpdated :: LastUpdated
  sr_conflicts :: "FieldConflict list"
  sr_matchedFields :: "string list"

definition fieldsToCompare ::
  "Customer \<Rightarrow> Customer \<Rightarrow> (string \<times> string option \<times> string option) list" where
  "fieldsToCompare systemA systemB =
     [ (''name'', Some (c_name systemA), Some (c_name systemB)),
       (''address'', Some (c_address systemA), Some (c_address systemB)),
       (''phone'', c_phone systemA, c_phone systemB),
       (''contractStartDate'', c_contractStartDate systemA, c_contractStartDate systemB),
       (''contractType'', c_contractType systemA, c_contractType systemB) ]"

fun diffLoop ::
  "SourceSystem \<Rightarrow> (string \<times> string option \<times> string option) list \<Rightarrow>
     FieldConflict list \<times> string list \<Rightarrow> FieldConflict list \<times> string list" where
  "diffLoop newerSource [] (conflicts, matchedFields) = (conflicts, matchedFields)"
| "diffLoop newerSource ((field, aVal, bVal) # rest) (conflicts, matchedFields) =
     (if aVal = None \<and> bVal = None
      then diffLoop newerSource rest (conflicts, matchedFields)
      else if aVal = bVal
      then diffLoop newerSource rest (conflicts, matchedFields @ [field])
      else diffLoop newerSource rest
             (conflicts @
                [\<lparr> fc_field = field, fc_systemAValue = aVal, fc_systemBValue = bVal,
                   fc_newerSource = newerSource \<rparr>],
              matchedFields))"

definition diff :: "Customer \<Rightarrow> Customer \<Rightarrow> error + SyncResultOutput" where
  "diff systemA systemB =
     (let newerSource =
            (if date_ge (c_lastUpdated systemA) (c_lastUpdated systemB)
             then SYSTEM_A else SYSTEM_B);
          (conflicts, matchedFields) =
            diffLoop newerSource (fieldsToCompare systemA systemB) ([], [''email''])
      in case toISOString (c_lastUpdated systemA) of
           Inl e \<Rightarrow> Inl e
         | Inr isoA \<Rightarrow>
             (case toISOString (c_lastUpdated systemB) of
                Inl e \<Rightarrow> Inl e
              | Inr isoB \<Rightarrow>
                  Inr \<lparr> sr_email = c_email systemA,
                        sr_status = (if length conflicts > 0 then conflicts_found else in_sync),
                        sr_presentIn = None,
                        sr_lastUpdated = \<lparr> lu_systemA = Some isoA, lu_systemB = Some isoB \<rparr>,
                        sr_conflicts = conflicts,
                        sr_matchedFields = matchedFields \<rparr>))"

text \<open>The conflict entry that the loop pushes for an entry of \<open>fieldsToCompare\<close>.\<close>

definition mkConflict ::
  "SourceSystem \<Rightarrow> string \<times> string option \<times> string option \<Rightarrow> FieldConflict" where
  "mkConflict newerSource e =
     \<lparr> fc_field = fst e, fc_systemAValue = fst (snd e), fc_systemBValue = snd (snd e),
       fc_newerSource = newerSource \<rparr>"

section \<open>The Email value object\<close>

subsection \<open>Regular expressions\<close>

text \<open>
  The constructs of the pattern \<open>/^[^\s@]+@[^\s@]+\.[^\s@]+$/\<close>: a literal character,
  a negated character class of characters and \<open>\s\<close>, \<open>+\<close> and concatenation; the
  closure, the alternative, the empty word and the empty language are what the derivative
  of these needs. A pattern between \<open>^\<close> and \<open>$\<close> without flags is tested against
  the whole string, so \<open>test\<close> is membership of the string in the language of the
  pattern, decided by derivatives.
\<close>

datatype cclass = ClassChar char | ClassSpace

fun inClass :: "char \<Rightarrow> cclass \<Rightarrow> bool" where
  "inClass c (ClassChar d) = (c = d)"
| "inClass c ClassSpace = isWhiteSpace c"

datatype regex =
    Fail
  | Eps
  | Lit char
  | NoneOf "cclass list"
  | Alt regex regex
  | Seq regex regex
  | Star regex
  | Plus regex

fun nullable :: "regex \<Rightarrow> bool" where
  "nullable Fail = False"
| "nullable Eps = True"
| "nullable (Lit d) = False"
| "nullable (NoneOf cs) = False"
| "nullable (Alt r s) = (nullable r \<or> nullable s)"
| "nullable (Seq r s) = (nullable r \<and> nullable s)"
| "nullable (Star r) = True"
| "nullable (Plus r) = nullable r"

fun deriv :: "char \<Rightarrow> regex \<Rightarrow> regex" where
  "deriv c Fail = Fail"
| "deriv c Eps = Fail"
| "deriv c (Lit d) = (if c = d then Eps else Fail)"
| "deriv c (NoneOf cs) = (if list_ex (inClass c) cs then Fail else Eps)"
| "deriv c (Alt r s) = Alt (deriv c r) (deriv c s)"
| "deriv c (Seq r s) =
     (if nullable r then Alt (Seq (deriv c r) s) (deriv c s) else Seq (deriv c r) s)"
| "deriv c (Star r) = Seq (deriv c r) (Star r)"
| "deriv c (Plus r) = Seq (deriv c r) (Star r)"

definition regex_test :: "regex \<Rightarrow> string \<Rightarrow> bool" where
  "regex_test r s = nullable (fold deriv s r)"

subsection \<open>Email\<close>

record Email =
  em_value :: string

definition emailRegex :: regex where
  "emailRegex =
     Seq (Plus (NoneOf [ClassSpace, ClassChar CHR ''@'']))
       (Seq (Lit CHR ''@'')
          (Seq (Plus (NoneOf [ClassSpace, ClassChar CHR ''@'']))
             (Seq (Lit CHR ''.'')
                (Plus (NoneOf [ClassSpace, ClassChar CHR ''@''])))))"

definition isValid :: "string \<Rightarrow> bool" where
  "isValid email = regex_test emailRegex email"

definition new_Email :: "string \<Rightarrow> error + Email" where
  "new_Email email =
     (let normalized = trim (toLowerCase email)
      in if \<not> isValid normalized then Inl (InvalidEmailFormat email)
         else Inr \<lparr> em_value = normalized \<rparr>)"

subsection \<open>The language of a pattern\<close>

text \<open>
  What a pattern matches, independent of the matcher: the set of the strings of each
  construct, with \<open>conc\<close> for concatenation and \<open>iter\<close> for repetition. A character
  allowed by \<open>[^\s@]\<close> is an \<open>emailChar\<close>.
\<close>

definition conc :: "string set \<Rightarrow> string set \<Rightarrow> string set" where
  "conc K L = {u @ v | u v. u \<in> K \<and> v \<in> L}"

inductive_set iter :: "string set \<Rightarrow> string set" for L :: "string set" where
  iter_empty: "[] \<in> iter L"
| iter_more: "u \<in> L \<Longrightarrow> v \<in> iter L \<Longrightarrow> u @ v \<in> iter L"

fun lang :: "regex \<Rightarrow> string set" where
  "lang Fail = {}"
| "lang Eps = {[]}"
| "lang (Lit d) = {[d]}"
| "lang (NoneOf cs) = {[c] | c. \<not> list_ex (inClass c) cs}"
| "lang (Alt r s) = lang r \<union> lang s"
| "lang (Seq r s) = conc (lang r) (lang s)"
| "lang (Star r) = iter (lang r)"
| "lang (Plus r) = conc (lang r) (iter (lang r))"

definition emailChar :: "char \<Rightarrow> bool" where
  "emailChar c = (\<not> isWhiteSpace c \<and> c \<noteq> CHR ''@'')"

section \<open>The use cases\<close>

text \<open>
  A repository is one of the two implementations of \<open>ICustomerRepository\<close>. Within one
  operation each method is called at most once for an argument, so a repository is the
  pair of functions from the argument to the promise's outcome: fulfilled with a value, or
  rejected. \<open>Promise.all\<close> of two promises is rejected as soon as one of them is.
  The third method, \<open>isHealthy\<close>, serves the health check only and is left out.
\<close>

datatype 'a promise = Fulfilled 'a | Rejected

record ICustomerRepository =
  findByEmail :: "string \<Rightarrow> Customer option promise"
  searchByName :: "string \<Rightarrow> Customer list promise"

definition Promise_all :: "'a promise \<Rightarrow> 'b promise \<Rightarrow> error + ('a \<times> 'b)" where
  "Promise_all p q =
     (case p of
        Rejected \<Rightarrow> Inl LookupRejected
      | Fulfilled a \<Rightarrow>
          (case q of Rejected \<Rightarrow> Inl LookupRejected | Fulfilled b \<Rightarrow> Inr (a, b)))"

text \<open>
  The statement of both orchestrating use cases that follows \<open>merge\<close>:
  \<open>if ((!a && b) || (a && !b)) merged._metadata.isPartial = true\<close>.
\<close>

definition markPartial ::
  "Customer option \<Rightarrow> Customer option \<Rightarrow> UnifiedCustomerOutput \<Rightarrow> UnifiedCustomerOutput" where
  "markPartial a b merged =
     (if (a = None \<and> b \<noteq> None) \<or> (a \<noteq> None \<and> b = None)
      then merged\<lparr> u_metadata := (u_metadata merged)\<lparr> md_isPartial := True \<rparr> \<rparr>
      else merged)"

definition GetCustomerByEmailUseCase_execute ::
  "ICustomerRepository \<Rightarrow> ICustomerRepository \<Rightarrow> string \<Rightarrow> error + UnifiedCustomerOutput" where
  "GetCustomerByEmailUseCase_execute systemA systemB email =
     (let normalizedEmail = trim (toLowerCase email)
      in case Promise_all (findByEmail systemA normalizedEmail)
                (findByEmail systemB normalizedEmail) of
           Inl e \<Rightarrow> Inl e
         | Inr (customerA, customerB) \<Rightarrow>
             if customerA = None \<and> customerB = None
             then Inl (CustomerNotFoundException normalizedEmail)
             else (case merge customerA customerB of
                     Inl e \<Rightarrow> Inl e
                   | Inr result \<Rightarrow> Inr (markPartial customerA customerB result)))"

definition singleSourceOnly ::
  "string \<Rightarrow> SourceSystem \<Rightarrow> isoString option \<Rightarrow> isoString option \<Rightarrow> SyncResultOutput" where
  "singleSourceOnly normalizedEmail present isoA isoB =
     \<lparr> sr_email = normalizedEmail,
       sr_status = single_source_only,
       sr_presentIn = Some present,
       sr_lastUpdated = \<lparr> lu_systemA = isoA, lu_systemB = isoB \<rparr>,
       sr_conflicts = [],
       sr_matchedFields = [] \<rparr>"

definition SyncCustomerUseCase_execute ::
  "ICustomerRepository \<Rightarrow> ICustomerRepository \<Rightarrow> string \<Rightarrow> error + SyncResultOutput" where
  "SyncCustomerUseCase_execute systemA systemB email =
     (let normalizedEmail = trim (toLowerCase email)
      in case Promise_all (findByEmail systemA normalizedEmail)
                (findByEmail systemB normalizedEmail) of
           Inl e \<Rightarrow> Inl e
         | Inr (None, None) \<Rightarrow> Inl (CustomerNotFoundException normalizedEmail)
         | Inr (Some customerA, None) \<Rightarrow>
             (case toISOString (c_lastUpdated customerA) of
                Inl e \<Rightarrow> Inl e
              | Inr isoA \<Rightarrow> Inr (singleSourceOnly normalizedEmail SYSTEM_A (Some isoA) None))
         | Inr (None, Some customerB) \<Rightarrow>
             (case toISOString (c_lastUpdated customerB) of
                Inl e \<Rightarrow> Inl e
              | Inr isoB \<Rightarrow> Inr (singleSourceOnly normalizedEmail SYSTEM_B None (Some isoB)))
         | Inr (Some customerA, Some customerB) \<Rightarrow> diff customerA customerB)"

text \<open>
  \<open>SearchCustomersUseCase\<close>. A \<open>Map\<close> is an association list in insertion order with
  \<open>set\<close> as \<open>AList.update\<close>, \<open>get\<close> as \<open>map_of\<close>; a \<open>Set\<close> is the list of
  its elements in insertion order. The loop that starts the cross-reference lookups tests
  \<open>has\<close> on the maps of the name search, since no callback runs before the loop ends;
  a callback stores under the email looked up, and a rejected lookup is caught.
\<close>

definition Set_add :: "'a \<Rightarrow> 'a list \<Rightarrow> 'a list" where
  "Set_add x s = (if x \<in> set s then s else s @ [x])"

definition new_Set :: "'a list \<Rightarrow> 'a list" where
  "new_Set xs = fold Set_add xs []"

definition new_Map :: "Customer list \<Rightarrow> (string \<times> Customer) list" where
  "new_Map customers = fold (\<lambda>c m. AList.update (c_email c) c m) customers []"

definition crossReference ::
  "ICustomerRepository \<Rightarrow> string list \<Rightarrow> (string \<times> Customer) list \<Rightarrow>
     (string \<times> Customer) list" where
  "crossReference repo allEmails m =
     fold (\<lambda>email acc.
             case findByEmail repo email of
               Fulfilled (Some c) \<Rightarrow> AList.update email c acc
             | Fulfilled None \<Rightarrow> acc
             | Rejected \<Rightarrow> acc)
       (filter (\<lambda>email. map_of m email = None) allEmails) m"

fun searchLoop ::
  "(string \<times> Customer) list \<Rightarrow> (string \<times> Customer) list \<Rightarrow> string list \<Rightarrow>
     error + UnifiedCustomerOutput list" where
  "searchLoop mapA mapB [] = Inr []"
| "searchLoop mapA mapB (email # rest) =
     (let a = map_of mapA email; b = map_of mapB email
      in case merge a b of
           Inl e \<Rightarrow> Inl e
         | Inr merged \<Rightarrow>
             (case searchLoop mapA mapB rest of
                Inl e \<Rightarrow> Inl e
              | Inr results \<Rightarrow> Inr (markPartial a b merged # results)))"

text \<open>
  The part of \<open>execute\<close> before the loop over \<open>allEmails\<close>: the emails and the two maps
  after the cross-reference lookups.
\<close>

definition SearchCustomersUseCase_lookups ::
  "ICustomerRepository \<Rightarrow> ICustomerRepository \<Rightarrow> string \<Rightarrow>
     error + (string list \<times> (string \<times> Customer) list \<times> (string \<times> Customer) list)" where
  "SearchCustomersUseCase_lookups systemA systemB query =
     (case Promise_all (searchByName systemA query) (searchByName systemB query) of
        Inl e \<Rightarrow> Inl e
      | Inr (customersA, customersB) \<Rightarrow>
          (let mapA = new_Map customersA;
               mapB = new_Map customersB;
               allEmails = new_Set (map fst mapA @ map fst mapB)
           in Inr (allEmails, crossReference systemA allEmails mapA,
                   crossReference systemB allEmails mapB)))"

definition SearchCustomersUseCase_execute ::
  "ICustomerRepository \<Rightarrow> ICustomerRepository \<Rightarrow> string \<Rightarrow>
     error + UnifiedCustomerOutput list" where
  "SearchCustomersUseCase_execute systemA systemB query =
     (case SearchCustomersUseCase_lookups systemA systemB query of
        Inl e \<Rightarrow> Inl e
      | Inr (allEmails, mapA, mapB) \<Rightarrow> searchLoop mapA mapB allEmails)"

text \<open>An operation fails with NotFound when it throws \<open>CustomerNotFoundException\<close>.\<close>

definition isNotFound :: "error + 'a \<Rightarrow> bool" where
  "isNotFound r = (case r of Inl (CustomerNotFoundException e) \<Rightarrow> True | _ \<Rightarrow> False)"

section \<open>Example data\<close>

text \<open>
  The records of the test suite: Sophie is known to both systems under two spellings
  (System A updated on 2023-01-01, System B on 2024-06-01, as time values), Jan to
  System A only. System A's name search for \<open>Mueller\<close> misses Sophie. A record of
  System B with the empty string as its phone number is what \<open>CustomerBMapper\<close> builds
  from a response with \<open>phone: ""\<close>.
\<close>

definition sophieA :: Customer where
  "sophieA =
     \<lparr> c_id = ''id-1'', c_email = ''sophie@example.de'', c_name = ''Sophie Muller'',
       c_address = ''Addr A'', c_phone = None, c_contractStartDate = Some ''2020-01-01'',
       c_contractType = Some ''basic'', c_lastUpdated = TimeValue 1672531200000,
       c_source = SYSTEM_A \<rparr>"

definition sophieB :: Customer where
  "sophieB =
     \<lparr> c_id = ''uuid-1'', c_email = ''sophie@example.de'', c_name = ''Sophie Mueller'',
       c_address = ''Addr B'', c_phone = Some ''+49 222'', c_contractStartDate = None,
       c_contractType = None, c_lastUpdated = TimeValue 1717200000000,
       c_source = SYSTEM_B \<rparr>"

definition janA :: Customer where
  "janA =
     \<lparr> c_id = ''legacy_003'', c_email = ''jan@example.de'', c_name = ''Jan Schmidt'',
       c_address = ''Berliner Str. 10'', c_phone = None,
       c_contractStartDate = Some ''2023-01-10'', c_contractType = Some ''RENTAL'',
       c_lastUpdated = TimeValue 1718874000000, c_source = SYSTEM_A \<rparr>"

definition exampleSystemA :: ICustomerRepository where
  "exampleSystemA =
     \<lparr> findByEmail = (\<lambda>email.
         Fulfilled (if email = ''sophie@example.de'' then Some sophieA
                    else if email = ''jan@example.de'' then Some janA else None)),
       searchByName = (\<lambda>query. Fulfilled (if query = ''Schmidt'' then [janA] else [])) \<rparr>"

definition exampleSystemB :: ICustomerRepository where
  "exampleSystemB =
     \<lparr> findByEmail = (\<lambda>email.
         Fulfilled (if email = ''sophie@example.de'' then Some sophieB else None)),
       searchByName = (\<lambda>query. Fulfilled (if query = ''Mueller'' then [sophieB] else [])) \<rparr>"

definition phoneA :: Customer where
  "phoneA =
     \<lparr> c_id = ''id-1'', c_email = ''sophie@example.de'', c_name = ''Sophie Muller'',
       c_address = ''Addr A'', c_phone = Some ''+49 111'',
       c_contractStartDate = Some ''2020-01-01'', c_contractType = Some ''basic'',
       c_lastUpdated = TimeValue 1672531200000, c_source = SYSTEM_A \<rparr>"

definition emptyPhoneB :: Customer where
  "emptyPhoneB =
     \<lparr> c_id = ''uuid-1'', c_email = ''sophie@example.de'', c_name = ''Sophie Muller'',
       c_address = ''Addr A'', c_phone = Some '''', c_contractStartDate = None,
       c_contractType = None, c_lastUpdated = TimeValue 1717200000000,
       c_source = SYSTEM_B \<rparr>"

definition notAnEmailParams :: CustomerParams where
  "notAnEmailParams =
     \<lparr> p_id = ''id-1'', p_email = ''Not-An-Email '', p_name = ''Test User'',
       p_address = ''Test Addr'', p_phone = None, p_contractStartDate = None,
       p_contractType = None, p_lastUpdated = TimeValue 1704067200000,
       p_source = SYSTEM_A \<rparr>"

definition sophieDiff :: SyncResultOutput where
  "sophieDiff =
     \<lparr> sr_email = ''sophie@example.de'',
       sr_status = conflicts_found,
       sr_presentIn = None,
       sr_lastUpdated =
         \<lparr> lu_systemA = Some (ISO 1672531200000), lu_systemB = Some (ISO 1717200000000) \<rparr>,
       sr_conflicts =
         [ mkConflict SYSTEM_B (''name'', Some ''Sophie Muller'', Some ''Sophie Mueller''),
           mkConflict SYSTEM_B (''address'', Some ''Addr A'', Some ''Addr B''),
           mkConflict SYSTEM_B (''phone'', None, Some ''+49 222''),
           mkConflict SYSTEM_B (''contractStartDate'', Some ''2020-01-01'', None),
           mkConflict SYSTEM_B (''contractType'', Some ''basic'', None) ],
       sr_matchedFields = [''email''] \<rparr>"

definition janSync :: SyncResultOutput where
  "janSync = singleSourceOnly ''jan@example.de'' SYSTEM_A (Some (ISO 1718874000000)) None"


section \<open>The merge engine\<close>

lemma map_of_bothFields_name:
  "map_of (bothFields a b) ''name'' =
     Some (spreadField
        (if c_name a \<noteq> c_name b
         then (if date_gt (c_lastUpdated b) (c_lastUpdated a) then SYSTEM_B else SYSTEM_A)
         else BOTH)
        (c_name a \<noteq> c_name b) (c_name a) (c_name b))"
  by (simp add: bothFields_def Let_def update_conv')

lemma map_of_bothFields_phone:
  "map_of (bothFields a b) ''phone'' =
     (if truthy (c_phone b) then Some (plainField SYSTEM_B)
      else if truthy (c_phone a) then Some (plainField SYSTEM_A) else None)"
  by (simp add: bothFields_def Let_def update_conv')

lemma merge_both: "merge (Some a) (Some b) = Inr u \<longleftrightarrow> u = mergeFromBothSystems a b"
  by auto

lemma md_fields_mergeFromBothSystems:
  "md_fields (u_metadata (mergeFromBothSystems a b)) = bothFields a b"
  by (simp add: mergeFromBothSystems_def Let_def)

text \<open>
  C9. \<open>merge\<close> of two absent records fails with the merge error (InvariantViolation);
  with at least one record present it returns a unified record.
\<close>

theorem merge_fails_only_without_input:
  "merge None None = Inl MergeError \<and>
   (a \<noteq> None \<or> b \<noteq> None \<longrightarrow> (\<exists>u. merge a b = Inr u))"
  by (cases a; cases b) simp_all

theorem merge_fails_only_without_input_witness:
  "Some sophieA \<noteq> None \<and> (\<exists>u. merge (Some sophieA) None = Inr u)"
  using merge_fails_only_without_input [of "Some sophieA" None] by simp

text \<open>
  C2. With both records present the merged name is System B's when System B's
  \<open>lastUpdated\<close> is strictly greater and System A's otherwise, so System A wins when
  the time values are equal; the \<open>name\<close> entry of the field metadata has its conflict
  flag set iff the names differ, and names BOTH as the source when they do not.
\<close>

theorem merge_name_rule:
  assumes "merge (Some a) (Some b) = Inr u"
  shows "u_name u = (if date_gt (c_lastUpdated b) (c_lastUpdated a) then c_name b else c_name a)
    \<and> (\<forall>ta tb. c_lastUpdated a = TimeValue ta \<and> c_lastUpdated b = TimeValue tb \<longrightarrow>
          (ta < tb \<longrightarrow> u_name u = c_name b) \<and>
          (tb < ta \<longrightarrow> u_name u = c_name a) \<and>
          (ta = tb \<longrightarrow> u_name u = c_name a))
    \<and> (\<exists>fm. map_of (md_fields (u_metadata u)) ''name'' = Some fm \<and>
          (fm_conflict fm \<longleftrightarrow> c_name a \<noteq> c_name b) \<and>
          (c_name a = c_name b \<longrightarrow> fm_source fm = BOTH))"
proof -
  from assms have u: "u = mergeFromBothSystems a b"
    by (simp add: merge_both)
  have n: "u_name u =
      (if date_gt (c_lastUpdated b) (c_lastUpdated a) then c_name b else c_name a)"
    by (simp add: u mergeFromBothSystems_def Let_def)
  have f: "md_fields (u_metadata u) = bothFields a b"
    by (simp add: u md_fields_mergeFromBothSystems)
  show ?thesis
    by (simp add: n f map_of_bothFields_name spreadField_def)
qed

theorem merge_name_rule_witness:
  "merge (Some sophieA) (Some sophieB) = Inr (mergeFromBothSystems sophieA sophieB) \<and>
   u_name (mergeFromBothSystems sophieA sophieB) = ''Sophie Mueller'' \<and>
   map_of (md_fields (u_metadata (mergeFromBothSystems sophieA sophieB))) ''name''
     = Some \<lparr> fm_source = SYSTEM_B, fm_conflict = True,
              fm_systemAValue = Some ''Sophie Muller'',
              fm_systemBValue = Some ''Sophie Mueller'' \<rparr>"
proof -
  have h: "merge (Some sophieA) (Some sophieB) = Inr (mergeFromBothSystems sophieA sophieB)"
    by simp
  from merge_name_rule [OF h]
  have "u_name (mergeFromBothSystems sophieA sophieB) =
      (if date_gt (c_lastUpdated sophieB) (c_lastUpdated sophieA)
       then c_name sophieB else c_name sophieA)"
    by blast
  then have n: "u_name (mergeFromBothSystems sophieA sophieB) = ''Sophie Mueller''"
    by (simp add: sophieA_def sophieB_def)
  have m: "map_of (md_fields (u_metadata (mergeFromBothSystems sophieA sophieB))) ''name''
     = Some \<lparr> fm_source = SYSTEM_B, fm_conflict = True,
              fm_systemAValue = Some ''Sophie Muller'',
              fm_systemBValue = Some ''Sophie Mueller'' \<rparr>"
    by (simp add: md_fields_mergeFromBothSystems map_of_bothFields_name spreadField_def
        sophieA_def sophieB_def)
  from h n m show ?thesis by simp
qed

lemma merged_phone_cases:
  assumes "merge (Some a) (Some b) = Inr u"
  shows "(c_phone b \<noteq> None \<longrightarrow> u_phone u = c_phone b)
       \<and> (c_phone b = None \<longrightarrow> u_phone u = c_phone a)
       \<and> (\<forall>fm. map_of (md_fields (u_metadata u)) ''phone'' = Some fm \<longrightarrow> \<not> fm_conflict fm)"
proof -
  from assms have u: "u = mergeFromBothSystems a b"
    by (simp add: merge_both)
  have p: "u_phone u = nullish (c_phone b) (c_phone a)"
    by (simp add: u mergeFromBothSystems_def Let_def)
  have f: "md_fields (u_metadata u) = bothFields a b"
    by (simp add: u md_fields_mergeFromBothSystems)
  show ?thesis
    by (auto simp: p f map_of_bothFields_phone nullish_def plainField_def
        split: option.splits if_splits)
qed

text \<open>
  C1. The merged phone is System B's when it is present and not empty, and System A's
  otherwise; the phone is never flagged as a conflict. For System B's phone \<open>""\<close> and
  System A's phone \<open>+49 111\<close> the merged phone is \<open>""\<close>, System B's, although the
  field metadata names System A as the source of the phone.
\<close>

theorem merge_phone_empty_string:
  "merge (Some phoneA) (Some emptyPhoneB) = Inr (mergeFromBothSystems phoneA emptyPhoneB)
   \<and> c_phone phoneA = Some ''+49 111''
   \<and> c_phone emptyPhoneB = Some ''''
   \<and> u_phone (mergeFromBothSystems phoneA emptyPhoneB) = Some ''''
   \<and> map_of (md_fields (u_metadata (mergeFromBothSystems phoneA emptyPhoneB))) ''phone''
       = Some (plainField SYSTEM_A)"
  by (simp add: mergeFromBothSystems_def Let_def md_fields_mergeFromBothSystems
      map_of_bothFields_phone nullish_def truthy_def phoneA_def emptyPhoneB_def)

section \<open>The diff engine\<close>

lemma diffLoop_closed_form:
  "diffLoop ns fs (cs, ms) =
     (cs @ map (mkConflict ns) (filter (\<lambda>e. fst (snd e) \<noteq> snd (snd e)) fs),
      ms @ map fst (filter (\<lambda>e. fst (snd e) = snd (snd e) \<and> fst (snd e) \<noteq> None) fs))"
proof (induction fs arbitrary: cs ms)
  case Nil
  show ?case by simp
next
  case (Cons e fs)
  obtain f av bv where e: "e = (f, av, bv)" by (cases e)
  show ?case
    by (auto simp: e Cons.IH mkConflict_def)
qed

lemma diff_Inr:
  "diff a b = Inr r \<longleftrightarrow>
     (\<exists>ta tb. c_lastUpdated a = TimeValue ta \<and> c_lastUpdated b = TimeValue tb \<and>
        r = \<lparr> sr_email = c_email a,
              sr_status =
                (if filter (\<lambda>e. fst (snd e) \<noteq> snd (snd e)) (fieldsToCompare a b) \<noteq> []
                 then conflicts_found else in_sync),
              sr_presentIn = None,
              sr_lastUpdated = \<lparr> lu_systemA = Some (ISO ta), lu_systemB = Some (ISO tb) \<rparr>,
              sr_conflicts = map (mkConflict (if tb \<le> ta then SYSTEM_A else SYSTEM_B))
                 (filter (\<lambda>e. fst (snd e) \<noteq> snd (snd e)) (fieldsToCompare a b)),
              sr_matchedFields = ''email'' # map fst
                 (filter (\<lambda>e. fst (snd e) = snd (snd e) \<and> fst (snd e) \<noteq> None)
                    (fieldsToCompare a b)) \<rparr>)"
  by (cases "c_lastUpdated a"; cases "c_lastUpdated b")
     (auto simp: diff_def diffLoop_closed_form Let_def)

text \<open>\<open>diff\<close> returns a result exactly when both dates are valid.\<close>

lemma diff_returns:
  "(\<exists>r. diff a b = Inr r) \<longleftrightarrow> c_lastUpdated a \<noteq> InvalidDate \<and> c_lastUpdated b \<noteq> InvalidDate"
  by (cases "c_lastUpdated a"; cases "c_lastUpdated b") (simp_all add: diff_Inr)

lemma diff_sophie: "diff sophieA sophieB = Inr sophieDiff"
  by (simp add: diff_Inr sophieA_def sophieB_def sophieDiff_def fieldsToCompare_def)

lemma fieldsToCompare_names:
  "map fst (fieldsToCompare a b) =
     [''name'', ''address'', ''phone'', ''contractStartDate'', ''contractType'']"
  by (simp add: fieldsToCompare_def)

lemma fieldsToCompare_distinct: "distinct (map fst (fieldsToCompare a b))"
  by (simp add: fieldsToCompare_names)

lemma fieldsToCompare_not_email:
  assumes "e \<in> set (fieldsToCompare a b)"
  shows "fst e \<noteq> ''email''"
proof -
  from assms have "fst e \<in> set (map fst (fieldsToCompare a b))" by simp
  then show ?thesis unfolding fieldsToCompare_names by auto
qed

lemma key_in_filter:
  assumes "distinct (map fst fs)" and "(f, v) \<in> set fs"
  shows "f \<in> fst ` set (filter P fs) \<longleftrightarrow> P (f, v)"
proof
  assume "f \<in> fst ` set (filter P fs)"
  then obtain w where w: "(f, w) \<in> set fs" "P (f, w)" by auto
  from eq_key_imp_eq_value [OF assms(1) w(1) assms(2)] w(2) show "P (f, v)" by simp
next
  assume "P (f, v)"
  with assms(2) have "(f, v) \<in> set (filter P fs)" by simp
  then show "f \<in> fst ` set (filter P fs)" by force
qed

lemma fc_field_mkConflict: "fc_field \<circ> mkConflict ns = fst"
  by (rule ext) (simp add: mkConflict_def)

text \<open>
  C4. Every conflict entry of a result of \<open>diff\<close> names as \<open>newerSource\<close> the system
  whose \<open>lastUpdated\<close> is not earlier than the other's: System A when its time value is
  greater, System B when System B's is greater, and System A when the two are equal.
\<close>

theorem diff_newerSource:
  assumes "diff a b = Inr r" and "c \<in> set (sr_conflicts r)"
  shows "\<exists>ta tb. c_lastUpdated a = TimeValue ta \<and> c_lastUpdated b = TimeValue tb \<and>
           (tb < ta \<longrightarrow> fc_newerSource c = SYSTEM_A) \<and>
           (ta < tb \<longrightarrow> fc_newerSource c = SYSTEM_B) \<and>
           (ta = tb \<longrightarrow> fc_newerSource c = SYSTEM_A)"
  using assms by (auto simp: diff_Inr mkConflict_def)

theorem diff_newerSource_witness:
  "diff sophieA sophieB = Inr sophieDiff \<and>
   mkConflict SYSTEM_B (''name'', Some ''Sophie Muller'', Some ''Sophie Mueller'')
     \<in> set (sr_conflicts sophieDiff) \<and>
   c_lastUpdated sophieA = TimeValue 1672531200000 \<and>
   c_lastUpdated sophieB = TimeValue 1717200000000 \<and>
   fc_newerSource
     (mkConflict SYSTEM_B (''name'', Some ''Sophie Muller'', Some ''Sophie Mueller''))
     = SYSTEM_B"
proof -
  have h: "mkConflict SYSTEM_B (''name'', Some ''Sophie Muller'', Some ''Sophie Mueller'')
     \<in> set (sr_conflicts sophieDiff)"
    by (simp add: sophieDiff_def)
  from diff_newerSource [OF diff_sophie h] diff_sophie h show ?thesis
    by (auto simp: sophieA_def sophieB_def)
qed

lemma diff_entry_rule:
  assumes "diff a b = Inr r" and "(f, av, bv) \<in> set (fieldsToCompare a b)"
  shows "((f \<notin> set (sr_matchedFields r) \<and> f \<notin> fc_field ` set (sr_conflicts r))
            \<longleftrightarrow> (av = None \<and> bv = None))
       \<and> (\<not> (av = None \<and> bv = None) \<and> av = bv \<longrightarrow>
            f \<in> set (sr_matchedFields r) \<and> f \<notin> fc_field ` set (sr_conflicts r))
       \<and> (av \<noteq> bv \<longrightarrow>
            f \<notin> set (sr_matchedFields r) \<and>
            (\<exists>c \<in> set (sr_conflicts r).
               fc_field c = f \<and> fc_systemAValue c = av \<and> fc_systemBValue c = bv))
       \<and> (sr_status r = conflicts_found \<longleftrightarrow> sr_conflicts r \<noteq> [])
       \<and> (sr_status r = in_sync \<longleftrightarrow> sr_conflicts r = [])"
proof -
  from assms(1) obtain ta tb where
    r: "r = \<lparr> sr_email = c_email a,
              sr_status =
                (if filter (\<lambda>e. fst (snd e) \<noteq> snd (snd e)) (fieldsToCompare a b) \<noteq> []
                 then conflicts_found else in_sync),
              sr_presentIn = None,
              sr_lastUpdated = \<lparr> lu_systemA = Some (ISO ta), lu_systemB = Some (ISO tb) \<rparr>,
              sr_conflicts = map (mkConflict (if tb \<le> ta then SYSTEM_A else SYSTEM_B))
                 (filter (\<lambda>e. fst (snd e) \<noteq> snd (snd e)) (fieldsToCompare a b)),
              sr_matchedFields = ''email'' # map fst
                 (filter (\<lambda>e. fst (snd e) = snd (snd e) \<and> fst (snd e) \<noteq> None)
                    (fieldsToCompare a b)) \<rparr>"
    unfolding diff_Inr by blast
  define ns where "ns = (if tb \<le> ta then SYSTEM_A else SYSTEM_B)"
  have cs: "sr_conflicts r = map (mkConflict ns)
                 (filter (\<lambda>e. fst (snd e) \<noteq> snd (snd e)) (fieldsToCompare a b))"
    by (simp add: r ns_def)
  have ms: "sr_matchedFields r = ''email'' # map fst
                 (filter (\<lambda>e. fst (snd e) = snd (snd e) \<and> fst (snd e) \<noteq> None)
                    (fieldsToCompare a b))"
    by (simp add: r)
  have st: "sr_status r =
      (if filter (\<lambda>e. fst (snd e) \<noteq> snd (snd e)) (fieldsToCompare a b) \<noteq> []
       then conflicts_found else in_sync)"
    by (simp add: r)
  note d = fieldsToCompare_distinct [of a b]
  have ne: "f \<noteq> ''email''"
    using fieldsToCompare_not_email [OF assms(2)] by simp
  have m: "f \<in> set (sr_matchedFields r) \<longleftrightarrow> av = bv \<and> av \<noteq> None"
    using key_in_filter [OF d assms(2),
        of "\<lambda>e. fst (snd e) = snd (snd e) \<and> fst (snd e) \<noteq> None"] ne
    by (simp add: ms)
  have "fc_field ` set (sr_conflicts r)
      = fst ` set (filter (\<lambda>e. fst (snd e) \<noteq> snd (snd e)) (fieldsToCompare a b))"
    unfolding cs set_map image_comp fc_field_mkConflict ..
  then have c: "f \<in> fc_field ` set (sr_conflicts r) \<longleftrightarrow> av \<noteq> bv"
    using key_in_filter [OF d assms(2), of "\<lambda>e. fst (snd e) \<noteq> snd (snd e)"]
    by simp
  have c': "\<exists>c \<in> set (sr_conflicts r).
      fc_field c = f \<and> fc_systemAValue c = av \<and> fc_systemBValue c = bv" if "av \<noteq> bv"
  proof -
    from that assms(2)
    have "(f, av, bv) \<in> set (filter (\<lambda>e. fst (snd e) \<noteq> snd (snd e)) (fieldsToCompare a b))"
      by simp
    then have "mkConflict ns (f, av, bv) \<in> set (sr_conflicts r)"
      unfolding cs set_map by (rule imageI)
    then show ?thesis
      by (rule bexI [rotated]) (simp add: mkConflict_def)
  qed
  have s: "(sr_status r = conflicts_found \<longleftrightarrow> sr_conflicts r \<noteq> [])
       \<and> (sr_status r = in_sync \<longleftrightarrow> sr_conflicts r = [])"
    by (simp add: st cs)
  from c' s show ?thesis unfolding m c by auto
qed

lemma diff_names_only:
  assumes "diff a b = Inr r"
  shows "set (sr_matchedFields r) \<subseteq>
            {''email'', ''name'', ''address'', ''phone'', ''contractStartDate'', ''contractType''}
       \<and> fc_field ` set (sr_conflicts r) \<subseteq>
            {''name'', ''address'', ''phone'', ''contractStartDate'', ''contractType''}"
proof -
  from assms obtain ta tb where
    r: "r = \<lparr> sr_email = c_email a,
              sr_status =
                (if filter (\<lambda>e. fst (snd e) \<noteq> snd (snd e)) (fieldsToCompare a b) \<noteq> []
                 then conflicts_found else in_sync),
              sr_presentIn = None,
              sr_lastUpdated = \<lparr> lu_systemA = Some (ISO ta), lu_systemB = Some (ISO tb) \<rparr>,
              sr_conflicts = map (mkConflict (if tb \<le> ta then SYSTEM_A else SYSTEM_B))
                 (filter (\<lambda>e. fst (snd e) \<noteq> snd (snd e)) (fieldsToCompare a b)),
              sr_matchedFields = ''email'' # map fst
                 (filter (\<lambda>e. fst (snd e) = snd (snd e) \<and> fst (snd e) \<noteq> None)
                    (fieldsToCompare a b)) \<rparr>"
    unfolding diff_Inr by blast
  define ns where "ns = (if tb \<le> ta then SYSTEM_A else SYSTEM_B)"
  have cs: "sr_conflicts r = map (mkConflict ns)
           (filter (\<lambda>e. fst (snd e) \<noteq> snd (snd e)) (fieldsToCompare a b))"
    by (simp add: r ns_def)
  have ms: "sr_matchedFields r = ''email'' # map fst
           (filter (\<lambda>e. fst (snd e) = snd (snd e) \<and> fst (snd e) \<noteq> None)
              (fieldsToCompare a b))"
    by (simp add: r)
  have n: "fst ` set (fieldsToCompare a b) =
      {''name'', ''address'', ''phone'', ''contractStartDate'', ''contractType''}"
    using fieldsToCompare_names [of a b, THEN arg_cong, of set] by simp
  have 1: "set (sr_matchedFields r) \<subseteq> insert ''email'' (fst ` set (fieldsToCompare a b))"
    unfolding ms by auto
  have "fc_field ` set (sr_conflicts r)
      = fst ` set (filter (\<lambda>e. fst (snd e) \<noteq> snd (snd e)) (fieldsToCompare a b))"
    unfolding cs set_map image_comp fc_field_mkConflict ..
  then have 2: "fc_field ` set (sr_conflicts r) \<subseteq> fst ` set (fieldsToCompare a b)"
    by auto
  from 1 2 show ?thesis unfolding n by simp
qed

text \<open>
  C6. For each of the five compared fields (\<open>name\<close>, \<open>address\<close>, \<open>phone\<close>,
  \<open>contractStartDate\<close>, \<open>contractType\<close>) with the value \<open>av\<close> that System A's
  record holds for it and the value \<open>bv\<close> that System B's record holds: the field is
  neither in \<open>matchedFields\<close> nor among the conflicts iff both values are absent;
  otherwise equal values put the field name into \<open>matchedFields\<close> (and no conflict), and
  different values add a conflict entry with the two values (and no match). Nothing but
  \<open>email\<close> and these five names is matched, and nothing but these five names
  conflicts. The status is \<open>conflicts_found\<close> iff the list of conflicts is not empty,
  and \<open>in_sync\<close> otherwise.
\<close>

theorem diff_field_rule:
  assumes "diff a b = Inr r"
    and "(f, av, bv) \<in>
      { (''name'', Some (c_name a), Some (c_name b)),
        (''address'', Some (c_address a), Some (c_address b)),
        (''phone'', c_phone a, c_phone b),
        (''contractStartDate'', c_contractStartDate a, c_contractStartDate b),
        (''contractType'', c_contractType a, c_contractType b) }"
  shows "((f \<notin> set (sr_matchedFields r) \<and> f \<notin> fc_field ` set (sr_conflicts r))
            \<longleftrightarrow> (av = None \<and> bv = None))
       \<and> (\<not> (av = None \<and> bv = None) \<and> av = bv \<longrightarrow>
            f \<in> set (sr_matchedFields r) \<and> f \<notin> fc_field ` set (sr_conflicts r))
       \<and> (av \<noteq> bv \<longrightarrow>
            f \<notin> set (sr_matchedFields r) \<and>
            (\<exists>c \<in> set (sr_conflicts r).
               fc_field c = f \<and> fc_systemAValue c = av \<and> fc_systemBValue c = bv))
       \<and> set (sr_matchedFields r) \<subseteq>
            {''email'', ''name'', ''address'', ''phone'', ''contractStartDate'', ''contractType''}
       \<and> fc_field ` set (sr_conflicts r) \<subseteq>
            {''name'', ''address'', ''phone'', ''contractStartDate'', ''contractType''}
       \<and> (sr_status r = conflicts_found \<longleftrightarrow> sr_conflicts r \<noteq> [])
       \<and> (sr_status r = in_sync \<longleftrightarrow> sr_conflicts r = [])"
proof -
  from assms(2) have e: "(f, av, bv) \<in> set (fieldsToCompare a b)"
    unfolding fieldsToCompare_def by simp
  from diff_entry_rule [OF assms(1) e] diff_names_only [OF assms(1)] show ?thesis
    by (elim conjE, intro conjI) assumption+
qed

theorem diff_field_rule_witness:
  "diff sophieA sophieB = Inr sophieDiff \<and>
   c_phone sophieA = None \<and> c_phone sophieB = Some ''+49 222'' \<and>
   ''phone'' \<notin> set (sr_matchedFields sophieDiff) \<and>
   (\<exists>c \<in> set (sr_conflicts sophieDiff).
      fc_field c = ''phone'' \<and> fc_systemAValue c = None \<and>
      fc_systemBValue c = Some ''+49 222'') \<and>
   sr_status sophieDiff = conflicts_found"
proof -
  have pa: "c_phone sophieA = None"
    by (simp add: sophieA_def)
  have pb: "c_phone sophieB = Some ''+49 222''"
    by (simp add: sophieB_def)
  have h: "(''phone'', None, Some ''+49 222'') \<in>
      { (''name'', Some (c_name sophieA), Some (c_name sophieB)),
        (''address'', Some (c_address sophieA), Some (c_address sophieB)),
        (''phone'', c_phone sophieA, c_phone sophieB),
        (''contractStartDate'', c_contractStartDate sophieA, c_contractStartDate sophieB),
        (''contractType'', c_contractType sophieA, c_contractType sophieB) }"
    by (simp add: pa pb)
  have s: "sr_status sophieDiff = conflicts_found"
    by (simp add: sophieDiff_def)
  from diff_field_rule [OF diff_sophie h] diff_sophie pa pb s show ?thesis
    by simp
qed

lemma diff_matchedFields:
  assumes "diff a b = Inr r"
  shows "''email'' \<in> set (sr_matchedFields r) \<and> sr_status r \<noteq> single_source_only"
  using assms by (auto simp: diff_Inr split: if_splits)

section \<open>The lookup orchestrator\<close>

lemma merge_Inl: "merge a b = Inl e \<longleftrightarrow> e = MergeError \<and> a = None \<and> b = None"
  by (cases a; cases b) auto





lemma toLowerCase_jan: "trim (toLowerCase '' Jan@Example.DE '') = ''jan@example.de''"
  by code_simp

lemma toLowerCase_ghost: "trim (toLowerCase ''ghost@example.de'') = ''ghost@example.de''"
  by code_simp


lemma lookups_Mueller:
  "SearchCustomersUseCase_lookups exampleSystemA exampleSystemB ''Mueller''
     = Inr ([''sophie@example.de''], [(''sophie@example.de'', sophieA)],
            [(''sophie@example.de'', sophieB)])"
  by (simp add: SearchCustomersUseCase_lookups_def Promise_all_def exampleSystemA_def
      exampleSystemB_def new_Map_def new_Set_def Set_add_def crossReference_def
      sophieB_def)




lemma diff_not_NotFound: "diff a b \<noteq> Inl (CustomerNotFoundException e)"
  by (cases "c_lastUpdated a"; cases "c_lastUpdated b")
     (simp_all add: diff_def Let_def split: prod.splits)

lemma toISOString_Inl: "toISOString d = Inl e \<Longrightarrow> e = RangeError"
  by (cases d) simp_all

lemma GetCustomerByEmail_NotFound:
  "GetCustomerByEmailUseCase_execute A B email = Inl (CustomerNotFoundException e) \<longleftrightarrow>
     e = trim (toLowerCase email) \<and>
     findByEmail A (trim (toLowerCase email)) = Fulfilled None \<and>
     findByEmail B (trim (toLowerCase email)) = Fulfilled None"
  by (cases "findByEmail A (trim (toLowerCase email))";
      cases "findByEmail B (trim (toLowerCase email))")
     (auto simp: GetCustomerByEmailUseCase_execute_def Let_def Promise_all_def merge_Inl
        split: sum.splits)

lemma Sync_NotFound:
  "SyncCustomerUseCase_execute A B email = Inl (CustomerNotFoundException e) \<longleftrightarrow>
     e = trim (toLowerCase email) \<and>
     findByEmail A (trim (toLowerCase email)) = Fulfilled None \<and>
     findByEmail B (trim (toLowerCase email)) = Fulfilled None"
  by (cases "findByEmail A (trim (toLowerCase email))";
      cases "findByEmail B (trim (toLowerCase email))")
     (auto simp: SyncCustomerUseCase_execute_def Let_def Promise_all_def diff_not_NotFound
        split: sum.splits option.splits dest: toISOString_Inl)

lemma isNotFound_iff: "isNotFound r \<longleftrightarrow> (\<exists>e. r = Inl (CustomerNotFoundException e))"
  by (auto simp: isNotFound_def split: sum.splits error.splits)

lemma sync_jan:
  "SyncCustomerUseCase_execute exampleSystemA exampleSystemB '' Jan@Example.DE '' = Inr janSync"
  by (simp add: SyncCustomerUseCase_execute_def toLowerCase_jan Promise_all_def
      exampleSystemA_def exampleSystemB_def janSync_def janA_def)

text \<open>
  C8. GetByEmail and Sync fail with NotFound iff both lookups for the normalized email
  return absent, and the exception then carries the normalized email; when one of the
  lookups returns a record, neither operation fails with NotFound.
\<close>

theorem notFound_iff_both_absent:
  "(isNotFound (GetCustomerByEmailUseCase_execute A B email) \<longleftrightarrow>
      findByEmail A (trim (toLowerCase email)) = Fulfilled None \<and>
      findByEmail B (trim (toLowerCase email)) = Fulfilled None)
   \<and> (isNotFound (SyncCustomerUseCase_execute A B email) \<longleftrightarrow>
      findByEmail A (trim (toLowerCase email)) = Fulfilled None \<and>
      findByEmail B (trim (toLowerCase email)) = Fulfilled None)
   \<and> (isNotFound (GetCustomerByEmailUseCase_execute A B email) \<longrightarrow>
        GetCustomerByEmailUseCase_execute A B email
          = Inl (CustomerNotFoundException (trim (toLowerCase email))))
   \<and> (isNotFound (SyncCustomerUseCase_execute A B email) \<longrightarrow>
        SyncCustomerUseCase_execute A B email
          = Inl (CustomerNotFoundException (trim (toLowerCase email))))
   \<and> ((\<exists>c. findByEmail A (trim (toLowerCase email)) = Fulfilled (Some c)) \<or>
      (\<exists>c. findByEmail B (trim (toLowerCase email)) = Fulfilled (Some c)) \<longrightarrow>
        \<not> isNotFound (GetCustomerByEmailUseCase_execute A B email) \<and>
        \<not> isNotFound (SyncCustomerUseCase_execute A B email))"
  unfolding isNotFound_iff GetCustomerByEmail_NotFound Sync_NotFound by auto

theorem notFound_iff_both_absent_witness:
  "findByEmail exampleSystemA ''ghost@example.de'' = Fulfilled None
   \<and> findByEmail exampleSystemB ''ghost@example.de'' = Fulfilled None
   \<and> GetCustomerByEmailUseCase_execute exampleSystemA exampleSystemB ''ghost@example.de''
       = Inl (CustomerNotFoundException ''ghost@example.de'')
   \<and> SyncCustomerUseCase_execute exampleSystemA exampleSystemB ''ghost@example.de''
       = Inl (CustomerNotFoundException ''ghost@example.de'')
   \<and> findByEmail exampleSystemA ''jan@example.de'' = Fulfilled (Some janA)
   \<and> \<not> isNotFound
         (GetCustomerByEmailUseCase_execute exampleSystemA exampleSystemB '' Jan@Example.DE '')
   \<and> \<not> isNotFound
         (SyncCustomerUseCase_execute exampleSystemA exampleSystemB '' Jan@Example.DE '')"
proof -
  have ga: "findByEmail exampleSystemA ''ghost@example.de'' = Fulfilled None"
    by (simp add: exampleSystemA_def)
  have gb: "findByEmail exampleSystemB ''ghost@example.de'' = Fulfilled None"
    by (simp add: exampleSystemB_def)
  have ja: "findByEmail exampleSystemA ''jan@example.de'' = Fulfilled (Some janA)"
    by (simp add: exampleSystemA_def)
  from notFound_iff_both_absent [of exampleSystemA exampleSystemB "''ghost@example.de''"]
    ga gb
  have 1: "GetCustomerByEmailUseCase_execute exampleSystemA exampleSystemB ''ghost@example.de''
       = Inl (CustomerNotFoundException ''ghost@example.de'')
     \<and> SyncCustomerUseCase_execute exampleSystemA exampleSystemB ''ghost@example.de''
       = Inl (CustomerNotFoundException ''ghost@example.de'')"
    by (simp add: toLowerCase_ghost)
  from notFound_iff_both_absent [of exampleSystemA exampleSystemB "'' Jan@Example.DE ''"] ja
  have 2: "\<not> isNotFound
         (GetCustomerByEmailUseCase_execute exampleSystemA exampleSystemB '' Jan@Example.DE '')
     \<and> \<not> isNotFound
         (SyncCustomerUseCase_execute exampleSystemA exampleSystemB '' Jan@Example.DE '')"
    by (simp add: toLowerCase_jan)
  from ga gb ja 1 2 show ?thesis by simp
qed

lemma Sync_Inr:
  assumes "SyncCustomerUseCase_execute A B email = Inr r"
  shows "(sr_status r = single_source_only \<and> sr_matchedFields r = [])
       \<or> (\<exists>a b. diff a b = Inr r)"
  using assms
  by (auto simp: SyncCustomerUseCase_execute_def Let_def singleSourceOnly_def
      split: sum.splits option.splits prod.splits)

text \<open>
  C5. A result of \<open>diff\<close> on two present records has \<open>email\<close> in its
  \<open>matchedFields\<close>. A result of Sync has \<open>email\<close> in its \<open>matchedFields\<close> iff it
  does not come from the single-source path, whose \<open>matchedFields\<close> is empty.
\<close>

theorem matchedFields_email_rule:
  "(diff a b = Inr r \<longrightarrow> ''email'' \<in> set (sr_matchedFields r))
   \<and> (SyncCustomerUseCase_execute A B email = Inr r' \<longrightarrow>
        (sr_status r' = single_source_only \<longleftrightarrow> ''email'' \<notin> set (sr_matchedFields r')) \<and>
        (sr_status r' = single_source_only \<longrightarrow> sr_matchedFields r' = []))"
  using diff_matchedFields [of a b r] Sync_Inr [of A B email r'] diff_matchedFields [of _ _ r']
  by auto

theorem matchedFields_email_rule_witness:
  "diff sophieA sophieB = Inr sophieDiff
   \<and> ''email'' \<in> set (sr_matchedFields sophieDiff)
   \<and> SyncCustomerUseCase_execute exampleSystemA exampleSystemB '' Jan@Example.DE ''
       = Inr janSync
   \<and> sr_status janSync = single_source_only
   \<and> sr_matchedFields janSync = []"
proof -
  have s: "sr_status janSync = single_source_only"
    by (simp add: janSync_def singleSourceOnly_def)
  from matchedFields_email_rule [of sophieA sophieB sophieDiff exampleSystemA exampleSystemB
      "'' Jan@Example.DE ''" janSync] diff_sophie sync_jan s
  show ?thesis by simp
qed

text \<open>
  Jan is known to System A only: the result of Sync is the single-source one, and its
  \<open>matchedFields\<close> is empty.
\<close>

theorem sync_single_source_without_email:
  "SyncCustomerUseCase_execute exampleSystemA exampleSystemB '' Jan@Example.DE ''
     = Inr janSync
   \<and> sr_matchedFields janSync = []
   \<and> ''email'' \<notin> set (sr_matchedFields janSync)"
  by (simp add: sync_jan janSync_def singleSourceOnly_def)

lemma set_fold_Set_add: "set (fold Set_add xs acc) = set xs \<union> set acc"
  by (induction xs arbitrary: acc) (auto simp: Set_add_def)

lemma set_new_Set: "set (new_Set xs) = set xs"
  by (simp add: new_Set_def set_fold_Set_add)

lemma fold_update_keeps:
  assumes "map_of acc k \<noteq> None"
  shows "map_of (fold (\<lambda>email acc.
             case findByEmail repo email of
               Fulfilled (Some c) \<Rightarrow> AList.update email c acc
             | Fulfilled None \<Rightarrow> acc
             | Rejected \<Rightarrow> acc) es acc) k \<noteq> None"
  using assms
proof (induction es arbitrary: acc)
  case Nil
  then show ?case by simp
next
  case (Cons e es)
  show ?case
    unfolding fold_simps
    by (rule Cons.IH)
       (use Cons.prems in \<open>auto simp: update_conv' split: promise.splits option.splits\<close>)
qed

lemma crossReference_keeps:
  "map_of m k \<noteq> None \<Longrightarrow> map_of (crossReference repo es m) k \<noteq> None"
  unfolding crossReference_def by (rule fold_update_keeps)

lemma lookups_present:
  assumes "SearchCustomersUseCase_lookups A B query = Inr (allEmails, mapA, mapB)"
    and "email \<in> set allEmails"
  shows "map_of mapA email \<noteq> None \<or> map_of mapB email \<noteq> None"
proof -
  from assms(1) obtain customersA customersB where
    es: "allEmails = new_Set (map fst (new_Map customersA) @ map fst (new_Map customersB))"
    and mA: "mapA = crossReference A allEmails (new_Map customersA)"
    and mB: "mapB = crossReference B allEmails (new_Map customersB)"
    by (auto simp: SearchCustomersUseCase_lookups_def Let_def split: sum.splits)
  from assms(2)
  have "email \<in> fst ` set (new_Map customersA) \<or> email \<in> fst ` set (new_Map customersB)"
    by (auto simp: es set_new_Set)
  then have "map_of (new_Map customersA) email \<noteq> None
      \<or> map_of (new_Map customersB) email \<noteq> None"
    by (simp add: map_of_eq_None_iff)
  then show ?thesis
  proof
    assume "map_of (new_Map customersA) email \<noteq> None"
    then have "map_of mapA email \<noteq> None"
      unfolding mA by (rule crossReference_keeps)
    then show ?thesis ..
  next
    assume "map_of (new_Map customersB) email \<noteq> None"
    then have "map_of mapB email \<noteq> None"
      unfolding mB by (rule crossReference_keeps)
    then show ?thesis ..
  qed
qed

lemma searchLoop_Inl:
  "searchLoop mapA mapB es = Inl e \<Longrightarrow>
     e = MergeError \<and> (\<exists>email \<in> set es. map_of mapA email = None \<and> map_of mapB email = None)"
proof (induction es)
  case Nil
  then show ?case by simp
next
  case (Cons x es)
  then show ?case
    by (auto simp: Let_def merge_Inl split: sum.splits)
qed

lemma lookups_Inl:
  "SearchCustomersUseCase_lookups A B query = Inl e \<longleftrightarrow>
     e = LookupRejected \<and> (searchByName A query = Rejected \<or> searchByName B query = Rejected)"
  by (auto simp: SearchCustomersUseCase_lookups_def Let_def Promise_all_def
      split: sum.splits promise.splits)

text \<open>
  C10. No run of GetByEmail or SearchByName ends in the merge error of two absent
  records, whatever the repositories return: GetByEmail calls \<open>merge\<close> only behind its
  NotFound check, and every email that SearchByName merges has a record in one of the two
  maps after the cross-reference lookups, which only add records. SearchByName returns a
  list whenever both name searches are fulfilled.
\<close>

theorem merge_error_unreachable:
  "GetCustomerByEmailUseCase_execute A B email \<noteq> Inl MergeError
   \<and> SearchCustomersUseCase_execute A B query \<noteq> Inl MergeError
   \<and> (SearchCustomersUseCase_lookups A B query = Inr (allEmails, mapA, mapB) \<longrightarrow>
        (\<forall>e \<in> set allEmails. map_of mapA e \<noteq> None \<or> map_of mapB e \<noteq> None))
   \<and> (searchByName A query \<noteq> Rejected \<and> searchByName B query \<noteq> Rejected \<longrightarrow>
        (\<exists>results. SearchCustomersUseCase_execute A B query = Inr results))"
proof (intro conjI impI ballI)
  show "GetCustomerByEmailUseCase_execute A B email \<noteq> Inl MergeError"
    by (cases "findByEmail A (trim (toLowerCase email))";
        cases "findByEmail B (trim (toLowerCase email))")
       (auto simp: GetCustomerByEmailUseCase_execute_def Let_def Promise_all_def merge_Inl
          split: sum.splits)
next
  show "SearchCustomersUseCase_execute A B query \<noteq> Inl MergeError"
  proof
    assume f: "SearchCustomersUseCase_execute A B query = Inl MergeError"
    show False
    proof (cases "SearchCustomersUseCase_lookups A B query")
      case (Inl e)
      with f show False by (simp add: SearchCustomersUseCase_execute_def lookups_Inl)
    next
      case (Inr t)
      obtain es mA mB where t: "t = (es, mA, mB)" by (cases t)
      from f Inr have "searchLoop mA mB es = Inl MergeError"
        by (simp add: SearchCustomersUseCase_execute_def t)
      from searchLoop_Inl [OF this] lookups_present [OF Inr [unfolded t]]
      show False by blast
    qed
  qed
next
  fix e
  assume "SearchCustomersUseCase_lookups A B query = Inr (allEmails, mapA, mapB)"
    and "e \<in> set allEmails"
  then show "map_of mapA e \<noteq> None \<or> map_of mapB e \<noteq> None"
    by (rule lookups_present)
next
  assume ok: "searchByName A query \<noteq> Rejected \<and> searchByName B query \<noteq> Rejected"
  show "\<exists>results. SearchCustomersUseCase_execute A B query = Inr results"
  proof (cases "SearchCustomersUseCase_lookups A B query")
    case (Inl e)
    with ok show ?thesis by (simp add: lookups_Inl)
  next
    case (Inr t)
    obtain es mA mB where t: "t = (es, mA, mB)" by (cases t)
    show ?thesis
    proof (cases "searchLoop mA mB es")
      case (Inl e)
      from searchLoop_Inl [OF this] lookups_present [OF Inr [unfolded t]]
      show ?thesis by blast
    next
      case inr: (Inr rs)
      with Inr show ?thesis by (simp add: SearchCustomersUseCase_execute_def t)
    qed
  qed
qed

theorem merge_error_unreachable_witness:
  "SearchCustomersUseCase_lookups exampleSystemA exampleSystemB ''Mueller''
     = Inr ([''sophie@example.de''], [(''sophie@example.de'', sophieA)],
            [(''sophie@example.de'', sophieB)])
   \<and> map_of [(''sophie@example.de'', sophieA)] ''sophie@example.de'' \<noteq> None
   \<and> searchByName exampleSystemA ''Mueller'' = Fulfilled []
   \<and> searchByName exampleSystemB ''Mueller'' = Fulfilled [sophieB]
   \<and> (\<exists>results. SearchCustomersUseCase_execute exampleSystemA exampleSystemB ''Mueller''
         = Inr results)
   \<and> GetCustomerByEmailUseCase_execute exampleSystemA exampleSystemB ''ghost@example.de''
       \<noteq> Inl MergeError"
proof -
  have sa: "searchByName exampleSystemA ''Mueller'' = Fulfilled []"
    by (simp add: exampleSystemA_def)
  have sb: "searchByName exampleSystemB ''Mueller'' = Fulfilled [sophieB]"
    by (simp add: exampleSystemB_def)
  note r = merge_error_unreachable [of exampleSystemA exampleSystemB "''ghost@example.de''"
      "''Mueller''" "[''sophie@example.de'']" "[(''sophie@example.de'', sophieA)]"
      "[(''sophie@example.de'', sophieB)]"]
  from r lookups_Mueller sa sb show ?thesis by simp
qed

section \<open>Email validation\<close>

lemma in_conc: "w \<in> conc K L \<longleftrightarrow> (\<exists>u v. w = u @ v \<and> u \<in> K \<and> v \<in> L)"
  by (auto simp: conc_def)

lemma Nil_in_conc: "[] \<in> conc K L \<longleftrightarrow> [] \<in> K \<and> [] \<in> L"
  by (auto simp: conc_def)

lemma Cons_in_conc:
  "c # w \<in> conc K L \<longleftrightarrow>
     (\<exists>u v. w = u @ v \<and> c # u \<in> K \<and> v \<in> L) \<or> ([] \<in> K \<and> c # w \<in> L)"
proof
  assume "c # w \<in> conc K L"
  then obtain x v where x: "c # w = x @ v" "x \<in> K" "v \<in> L"
    by (auto simp: conc_def)
  show "(\<exists>u v. w = u @ v \<and> c # u \<in> K \<and> v \<in> L) \<or> ([] \<in> K \<and> c # w \<in> L)"
  proof (cases x)
    case Nil
    with x show ?thesis by simp
  next
    case (Cons y u)
    with x have "w = u @ v" "c # u \<in> K" by simp_all
    with x(3) show ?thesis by blast
  qed
next
  assume "(\<exists>u v. w = u @ v \<and> c # u \<in> K \<and> v \<in> L) \<or> ([] \<in> K \<and> c # w \<in> L)"
  then show "c # w \<in> conc K L"
  proof
    assume "\<exists>u v. w = u @ v \<and> c # u \<in> K \<and> v \<in> L"
    then obtain u v where "w = u @ v" "c # u \<in> K" "v \<in> L" by blast
    then have "c # w = (c # u) @ v \<and> c # u \<in> K \<and> v \<in> L" by simp
    then show ?thesis unfolding conc_def by blast
  next
    assume "[] \<in> K \<and> c # w \<in> L"
    then have "c # w = [] @ (c # w) \<and> [] \<in> K \<and> c # w \<in> L" by simp
    then show ?thesis unfolding conc_def by blast
  qed
qed

lemma iter_Cons_split:
  assumes "x \<in> iter L" and "x = c # w"
  shows "\<exists>u v. w = u @ v \<and> c # u \<in> L \<and> v \<in> iter L"
  using assms
proof (induction arbitrary: w rule: iter.induct)
  case iter_empty
  then show ?case by simp
next
  case (iter_more u v)
  show ?case
  proof (cases u)
    case Nil
    with iter_more show ?thesis by simp
  next
    case (Cons y u')
    with iter_more.prems have "w = u' @ v" "y = c" by simp_all
    with iter_more.hyps Cons show ?thesis by blast
  qed
qed

lemma Cons_in_iter:
  "c # w \<in> iter L \<longleftrightarrow> (\<exists>u v. w = u @ v \<and> c # u \<in> L \<and> v \<in> iter L)"
proof
  assume "c # w \<in> iter L"
  then show "\<exists>u v. w = u @ v \<and> c # u \<in> L \<and> v \<in> iter L"
    by (rule iter_Cons_split) simp
next
  assume "\<exists>u v. w = u @ v \<and> c # u \<in> L \<and> v \<in> iter L"
  then obtain u v where w: "w = u @ v" and "c # u \<in> L" "v \<in> iter L" by blast
  then have "(c # u) @ v \<in> iter L" by (intro iter_more)
  then show "c # w \<in> iter L" by (simp add: w)
qed

lemma nullable_lang: "nullable r \<longleftrightarrow> [] \<in> lang r"
  by (induction r) (auto simp: Nil_in_conc iter_empty)

lemma deriv_lang: "w \<in> lang (deriv c r) \<longleftrightarrow> c # w \<in> lang r"
proof (induction r arbitrary: w)
  case (Seq r s)
  have "w \<in> conc (lang (deriv c r)) (lang s) \<longleftrightarrow>
      (\<exists>u v. w = u @ v \<and> c # u \<in> lang r \<and> v \<in> lang s)"
    by (simp add: in_conc Seq.IH)
  then show ?case
    by (simp add: Cons_in_conc nullable_lang Seq.IH)
next
  case (Star r)
  show ?case
    by (simp add: Cons_in_iter in_conc Star.IH)
next
  case (Plus r)
  have "c # w \<in> conc (lang r) (iter (lang r)) \<longleftrightarrow>
      (\<exists>u v. w = u @ v \<and> c # u \<in> lang r \<and> v \<in> iter (lang r))"
    unfolding Cons_in_conc [of c w] Cons_in_iter [of c w] by blast
  then show ?case
    by (simp add: in_conc Plus.IH)
qed auto

lemma regex_test_lang: "regex_test r s \<longleftrightarrow> s \<in> lang r"
  unfolding regex_test_def
  by (induction s arbitrary: r) (simp_all add: nullable_lang deriv_lang)

lemma lang_NoneOf_email:
  "lang (NoneOf [ClassSpace, ClassChar CHR ''@'']) = {[c] | c. emailChar c}"
  by (auto simp: emailChar_def)

lemma iter_chars: "w \<in> iter {[c] | c. P c} \<longleftrightarrow> list_all P w"
proof
  assume "w \<in> iter {[c] | c. P c}"
  then show "list_all P w"
    by (induction rule: iter.induct) auto
next
  assume "list_all P w"
  then show "w \<in> iter {[c] | c. P c}"
  proof (induction w)
    case Nil
    show ?case by (rule iter_empty)
  next
    case (Cons c w)
    then have "[c] \<in> {[c] | c. P c}" "w \<in> iter {[c] | c. P c}" by auto
    then have "[c] @ w \<in> iter {[c] | c. P c}" by (rule iter_more)
    then show ?case by simp
  qed
qed

lemma plus_chars:
  "w \<in> conc {[c] | c. P c} (iter {[c] | c. P c}) \<longleftrightarrow> w \<noteq> [] \<and> list_all P w"
  by (cases w) (auto simp: Nil_in_conc Cons_in_conc iter_chars)

lemma isValid_iff:
  "isValid s \<longleftrightarrow>
     (\<exists>l d t. s = l @ ''@'' @ d @ ''.'' @ t \<and>
        l \<noteq> [] \<and> list_all emailChar l \<and>
        d \<noteq> [] \<and> list_all emailChar d \<and>
        t \<noteq> [] \<and> list_all emailChar t)"
proof -
  let ?P = "conc {[c] | c. emailChar c} (iter {[c] | c. emailChar c})"
  have "isValid s \<longleftrightarrow> s \<in> conc ?P (conc {''@''} (conc ?P (conc {''.''} ?P)))"
    by (simp only: isValid_def regex_test_lang emailRegex_def lang.simps(3,6,8)
        lang_NoneOf_email)
  also have "\<dots> \<longleftrightarrow> (\<exists>l d t. s = l @ ''@'' @ d @ ''.'' @ t \<and> l \<in> ?P \<and> d \<in> ?P \<and> t \<in> ?P)"
    (is "?lhs \<longleftrightarrow> ?rhs")
  proof
    assume ?lhs
    then obtain l r1 where 1: "s = l @ r1" "l \<in> ?P" "r1 \<in> conc {''@''} (conc ?P (conc {''.''} ?P))"
      unfolding in_conc [of s] by blast
    from 1(3) obtain r2 where 2: "r1 = ''@'' @ r2" "r2 \<in> conc ?P (conc {''.''} ?P)"
      unfolding in_conc [of r1] by blast
    from 2(2) obtain d r3 where 3: "r2 = d @ r3" "d \<in> ?P" "r3 \<in> conc {''.''} ?P"
      unfolding in_conc [of r2] by blast
    from 3(3) obtain t where 4: "r3 = ''.'' @ t" "t \<in> ?P"
      unfolding in_conc [of r3] by blast
    from 1 2 3 4 have "s = l @ ''@'' @ d @ ''.'' @ t \<and> l \<in> ?P \<and> d \<in> ?P \<and> t \<in> ?P"
      by simp
    then show ?rhs by blast
  next
    assume ?rhs
    then obtain l d t where s: "s = l @ ''@'' @ d @ ''.'' @ t" and m: "l \<in> ?P" "d \<in> ?P" "t \<in> ?P"
      by blast
    from m(3) have "''.'' @ t \<in> conc {''.''} ?P"
      unfolding in_conc [of "''.'' @ t"] by blast
    with m(2) have "d @ ''.'' @ t \<in> conc ?P (conc {''.''} ?P)"
      unfolding in_conc [of "d @ ''.'' @ t"] by blast
    then have "''@'' @ d @ ''.'' @ t \<in> conc {''@''} (conc ?P (conc {''.''} ?P))"
      unfolding in_conc [of "''@'' @ d @ ''.'' @ t"] by blast
    with m(1) show ?lhs
      unfolding s in_conc [of "l @ ''@'' @ d @ ''.'' @ t"] by blast
  qed
  finally have "isValid s \<longleftrightarrow>
      (\<exists>l d t. s = l @ ''@'' @ d @ ''.'' @ t \<and> l \<in> ?P \<and> d \<in> ?P \<and> t \<in> ?P)" .
  then show ?thesis
    by (simp only: plus_chars conj_assoc)
qed

lemma new_Customer_email: "c_email (new_Customer params) = trim (toLowerCase (p_email params))"
  by (simp add: new_Customer_def)

text \<open>
  C3. Constructing a Customer stores the lower-cased, trimmed email and validates
  nothing: the constructor cannot fail. Constructing an Email normalizes in the same way
  and fails iff the normalized email does not match the pattern; a string matches the
  pattern iff it is a non-empty local part, \<open>@\<close>, a non-empty part, a dot and a
  non-empty part, the three parts free of white space and of \<open>@\<close>.
\<close>

theorem email_normalized_validated_by_Email_only:
  "c_email (new_Customer params) = trim (toLowerCase (p_email params))
   \<and> new_Email email =
       (if isValid (trim (toLowerCase email))
        then Inr \<lparr> em_value = trim (toLowerCase email) \<rparr>
        else Inl (InvalidEmailFormat email))
   \<and> (isValid s \<longleftrightarrow>
        (\<exists>l d t. s = l @ ''@'' @ d @ ''.'' @ t \<and>
           l \<noteq> [] \<and> list_all emailChar l \<and>
           d \<noteq> [] \<and> list_all emailChar d \<and>
           t \<noteq> [] \<and> list_all emailChar t))"
  using isValid_iff [of s] by (simp add: new_Customer_email new_Email_def Let_def)

theorem email_normalized_validated_by_Email_only_witness:
  "c_email (new_Customer notAnEmailParams) = ''not-an-email''
   \<and> new_Email ''Not-An-Email '' = Inl (InvalidEmailFormat ''Not-An-Email '')
   \<and> new_Email ''  Max.Mustermann@Example.DE  ''
       = Inr \<lparr> em_value = ''max.mustermann@example.de'' \<rparr>"
proof -
  have n: "trim (toLowerCase ''Not-An-Email '') = ''not-an-email''"
    by code_simp
  have m: "trim (toLowerCase ''  Max.Mustermann@Example.DE  '') = ''max.mustermann@example.de''"
    by code_simp
  have i: "\<not> isValid ''not-an-email''"
    by code_simp
  have v: "isValid ''max.mustermann@example.de''"
    by code_simp
  have p: "p_email notAnEmailParams = ''Not-An-Email ''"
    by (simp add: notAnEmailParams_def)
  have a: "c_email (new_Customer notAnEmailParams)
      = trim (toLowerCase (p_email notAnEmailParams))"
    using email_normalized_validated_by_Email_only [of notAnEmailParams "[]" "[]"]
    by blast
  have b: "new_Email ''Not-An-Email '' =
       (if isValid (trim (toLowerCase ''Not-An-Email ''))
        then Inr \<lparr> em_value = trim (toLowerCase ''Not-An-Email '') \<rparr>
        else Inl (InvalidEmailFormat ''Not-An-Email ''))"
    using email_normalized_validated_by_Email_only [of notAnEmailParams "''Not-An-Email ''" "[]"]
    by blast
  have c: "new_Email ''  Max.Mustermann@Example.DE  '' =
       (if isValid (trim (toLowerCase ''  Max.Mustermann@Example.DE  ''))
        then Inr \<lparr> em_value = trim (toLowerCase ''  Max.Mustermann@Example.DE  '') \<rparr>
        else Inl (InvalidEmailFormat ''  Max.Mustermann@Example.DE  ''))"
    using email_normalized_validated_by_Email_only
      [of notAnEmailParams "''  Max.Mustermann@Example.DE  ''" "[]"]
    by blast
  show ?thesis
    unfolding a b c p n m using i v by simp
qed

text \<open>
  The constructor accepts \<open>Not-An-Email\<close>: the Customer holds the normalized
  string, which does not match the pattern.
\<close>

theorem customer_with_invalid_email:
  "c_email (new_Customer notAnEmailParams) = ''not-an-email''
   \<and> \<not> isValid (c_email (new_Customer notAnEmailParams))"
proof -
  have n: "trim (toLowerCase ''Not-An-Email '') = ''not-an-email''"
    by code_simp
  have i: "\<not> isValid ''not-an-email''"
    by code_simp
  show ?thesis
    by (simp add: new_Customer_email notAnEmailParams_def n i)
qed

end
